theory Spec2Isabelle
  imports Main
begin

section \<open>The focus-group analysis feedback loop\<close>

text \<open>
  A shallow embedding of \<^verbatim>\<open>fg_analysis_feedback_loop.py\<close>: the tool functions that
  the agents of the swarm call, the shared context they mutate, and the hand-offs
  registered between the agents.  The Python functions mutate the dictionary
  \<^verbatim>\<open>context_variables\<close> in place and return it inside a \<^verbatim>\<open>SwarmResult\<close>; here
  each function takes the dictionary and returns the updated one.  A Python exception is
  the left summand of the result; it carries the dictionary as it stands when the
  exception is raised, since the writes made before the raise have already happened.
\<close>

subsection \<open>Values\<close>

text \<open>
  The values nested inside a dictionary written by \<^verbatim>\<open>model_dump()\<close>: strings,
  booleans, \<^verbatim>\<open>None\<close>, lists and dictionaries.  A dictionary is an association list
  in the order of the model's fields.
\<close>

datatype json = JNone | JBool bool | JStr string | JList "json list" | JDict "(string \<times> json) list"

text \<open>
  The values the program stores at the top level of the context: booleans, integers,
  strings (a \<^verbatim>\<open>DocumentStage\<close> member is a \<^verbatim>\<open>str\<close>) and dictionaries
  (\<^verbatim>\<open>{}\<close> or a model dump).
\<close>

datatype pyval = VBool bool | VInt int | VStr string | VDict "(string \<times> json) list"

type_synonym context_dict = "string \<rightharpoonup> pyval"

datatype error = FileNotFoundError string | KeyError string | TypeError

datatype DocumentStage = ANALYSIS | REVIEW | REVISION | FINAL

fun stage_value :: "DocumentStage \<Rightarrow> string" where
  "stage_value ANALYSIS = ''analysis''"
| "stage_value REVIEW = ''review''"
| "stage_value REVISION = ''revision''"
| "stage_value FINAL = ''final''"

datatype agent =
  ingestion_agent | drafting_agent | review_agent | revision_agent
| finalization_agent | report_recorder_agent

record SwarmResult =
  values' :: string
  agent :: "agent option"
  context_variables :: context_dict

type_synonym outcome = "(error \<times> context_dict) + SwarmResult"

subsection \<open>Python's operators on context values\<close>

text \<open>Truthiness, as \<^verbatim>\<open>if\<close> and \<^verbatim>\<open>and\<close> test it.\<close>

fun truthy :: "pyval \<Rightarrow> bool" where
  "truthy (VBool b) = b"
| "truthy (VInt i) = (i \<noteq> 0)"
| "truthy (VStr s) = (s \<noteq> [])"
| "truthy (VDict d) = (d \<noteq> [])"

text \<open>\<^verbatim>\<open>bool\<close> is a subclass of \<^verbatim>\<open>int\<close>: \<^verbatim>\<open>True\<close> counts as 1.\<close>

fun as_number :: "pyval \<Rightarrow> int option" where
  "as_number (VBool b) = Some (if b then 1 else 0)"
| "as_number (VInt i) = Some i"
| "as_number (VStr s) = None"
| "as_number (VDict d) = None"

text \<open>Strings compare lexicographically by code point.\<close>

fun str_lt :: "string \<Rightarrow> string \<Rightarrow> bool" where
  "str_lt [] [] = False"
| "str_lt [] (y # ys) = True"
| "str_lt (x # xs) [] = False"
| "str_lt (x # xs) (y # ys) =
     (if (of_char x :: nat) < of_char y then True
      else if (of_char y :: nat) < of_char x then False
      else str_lt xs ys)"

text \<open>
  \<^verbatim>\<open>a < b\<close>: numbers with numbers, strings with strings; every other pair of these
  values raises \<^verbatim>\<open>TypeError\<close>.
\<close>

fun py_lt :: "pyval \<Rightarrow> pyval \<Rightarrow> error + bool" where
  "py_lt (VStr s) (VStr t) = Inr (str_lt s t)"
| "py_lt a b =
     (case (as_number a, as_number b) of
        (Some x, Some y) \<Rightarrow> Inr (x < y)
      | _ \<Rightarrow> Inl TypeError)"

text \<open>\<^verbatim>\<open>a + 1\<close>: an integer for a number, \<^verbatim>\<open>TypeError\<close> for a string or a dictionary.\<close>

fun py_add_one :: "pyval \<Rightarrow> error + int" where
  "py_add_one a = (case as_number a of Some x \<Rightarrow> Inr (x + 1) | None \<Rightarrow> Inl TypeError)"

text \<open>\<^verbatim>\<open>str(n)\<close> of an integer, as the f-string formats it.\<close>

fun str_of_nat :: "nat \<Rightarrow> string" where
  "str_of_nat n =
     (if n < 10 then [char_of (48 + n)]
      else str_of_nat (n div 10) @ [char_of (48 + n mod 10)])"

declare str_of_nat.simps [simp del]

definition str_of_int :: "int \<Rightarrow> string" where
  "str_of_int i = (if i < 0 then CHR ''-'' # str_of_nat (nat (- i)) else str_of_nat (nat i))"

subsection \<open>The shared context\<close>

definition shared_context :: context_dict where
  "shared_context =
     [''loop_started'' \<mapsto> VBool False,
      ''current_iteration'' \<mapsto> VInt 0,
      ''max_iterations'' \<mapsto> VInt 3,
      ''iteration_needed'' \<mapsto> VBool True,
      ''current_stage'' \<mapsto> VStr (stage_value ANALYSIS),
      ''focus_group_transcripts'' \<mapsto> VStr '''',
      ''focus_group_objectives'' \<mapsto> VStr '''',
      ''analysis_draft'' \<mapsto> VDict [],
      ''feedback_collection'' \<mapsto> VDict [],
      ''revised_analysis'' \<mapsto> VDict [],
      ''final_report'' \<mapsto> VDict [],
      ''has_error'' \<mapsto> VBool False,
      ''error_message'' \<mapsto> VStr '''',
      ''error_stage'' \<mapsto> VStr '''']"

text \<open>
  The program fixes \<^verbatim>\<open>max_iterations\<close> at 3.  The iteration ceiling of a run is a
  parameter of the workflow, so the statements about runs are made for the initial
  context with any ceiling in place of 3.
\<close>

definition initial_context :: "int \<Rightarrow> context_dict" where
  "initial_context m = shared_context(''max_iterations'' \<mapsto> VInt m)"

subsection \<open>Ingestion\<close>

text \<open>
  The file system is a map from a path to the text of the file; \<^verbatim>\<open>open(path, 'r')\<close>
  raises \<^verbatim>\<open>FileNotFoundError\<close> for a path it does not hold.
\<close>

type_synonym file_system = "string \<rightharpoonup> string"

definition read_data :: "file_system \<Rightarrow> context_dict \<Rightarrow> outcome" where
  "read_data fs c =
     (case fs ''data/transcripts.md'' of
        None \<Rightarrow> Inl (FileNotFoundError ''data/transcripts.md'', c)
      | Some transcripts \<Rightarrow>
          let c1 = c(''fg_transcripts'' \<mapsto> VStr transcripts) in
          (case fs ''data/objectives.md'' of
             None \<Rightarrow> Inl (FileNotFoundError ''data/objectives.md'', c1)
           | Some objectives \<Rightarrow>
               let c2 = c1(''fg_objectives'' \<mapsto> VStr objectives);
                   c3 = c2(''loop_started'' \<mapsto> VBool True);
                   c4 = c3(''current_stage'' \<mapsto> VStr (stage_value ANALYSIS));
                   c5 = c4(''current_iteration'' \<mapsto> VInt 1)
               in Inr \<lparr>values' = ''Read transcripts and objectives, and started the analysis feedback loop.'',
                        agent = None,
                        context_variables = c5\<rparr>))"

subsection \<open>Drafting\<close>

text \<open>
  The arguments of the tool functions have the types of their annotations, so the
  constructors of the pydantic models, which declare no constraint beyond the field
  types, accept them.
\<close>

datatype AnalysisDraft = AnalysisDraft string string

fun AnalysisDraft_dump :: "AnalysisDraft \<Rightarrow> (string \<times> json) list" where
  "AnalysisDraft_dump (AnalysisDraft t c) = [(''title'', JStr t), (''content'', JStr c)]"

definition submit_analysis_draft :: "string \<Rightarrow> string \<Rightarrow> context_dict \<Rightarrow> outcome" where
  "submit_analysis_draft title' content' c =
     (let analysis_draft = AnalysisDraft title' content';
          c1 = c(''analysis_draft'' \<mapsto> VDict (AnalysisDraft_dump analysis_draft));
          c2 = c1(''current_stage'' \<mapsto> VStr (stage_value REVIEW))
      in Inr \<lparr>values' = ''Analysis draft submitted. Moving to review stage.'',
               agent = None,
               context_variables = c2\<rparr>)"

subsection \<open>Review\<close>

datatype FeedbackItem = FeedbackItem string string "string option"

fun FeedbackItem_dump :: "FeedbackItem \<Rightarrow> json" where
  "FeedbackItem_dump (FeedbackItem f s r) =
     JDict [(''feedback'', JStr f), (''severity'', JStr s),
            (''recommendation'', (case r of None \<Rightarrow> JNone | Some x \<Rightarrow> JStr x))]"

datatype FeedbackCollection =
  FeedbackCollection (items: "FeedbackItem list") (overall_assessment: string)
    (priority_issues: "string list") (iteration_needed: bool)

fun FeedbackCollection_dump :: "FeedbackCollection \<Rightarrow> (string \<times> json) list" where
  "FeedbackCollection_dump (FeedbackCollection its oa ps b) =
     [(''items'', JList (map FeedbackItem_dump its)),
      (''overall_assessment'', JStr oa),
      (''priority_issues'', JList (map JStr ps)),
      (''iteration_needed'', JBool b)]"

definition submit_feedback ::
  "FeedbackItem list \<Rightarrow> string \<Rightarrow> string list \<Rightarrow> bool \<Rightarrow> context_dict \<Rightarrow> outcome" where
  "submit_feedback its oa ps b c =
     (let feedback = FeedbackCollection its oa ps b;
          c1 = c(''feedback_collection'' \<mapsto> VDict (FeedbackCollection_dump feedback));
          c2 = c1(''iteration_needed'' \<mapsto> VBool (iteration_needed feedback));
          c3 = c2(''current_stage'' \<mapsto> VStr (stage_value REVISION))
      in Inr \<lparr>values' = ''Feedback submitted. Moving to revision stage.'',
               agent = None,
               context_variables = c3\<rparr>)"

subsection \<open>Revision\<close>

datatype RevisedAnalysis =
  RevisedAnalysis (title: string) (content: string) (changes_made: "string list option")

fun RevisedAnalysis_dump :: "RevisedAnalysis \<Rightarrow> (string \<times> json) list" where
  "RevisedAnalysis_dump (RevisedAnalysis t c ch) =
     [(''title'', JStr t), (''content'', JStr c),
      (''changes_made'', (case ch of None \<Rightarrow> JNone | Some xs \<Rightarrow> JList (map JStr xs)))]"

text \<open>
  The test of the \<^verbatim>\<open>if\<close>:
  \<^verbatim>\<open>c["iteration_needed"] and c["current_iteration"] < c["max_iterations"]\<close>.
  The keys are looked up from left to right, a missing one raises \<^verbatim>\<open>KeyError\<close>, and
  \<^verbatim>\<open>and\<close> does not evaluate its right side when the left side is falsy.
\<close>

definition another_iteration :: "context_dict \<Rightarrow> error + bool" where
  "another_iteration c =
     (case c ''iteration_needed'' of
        None \<Rightarrow> Inl (KeyError ''iteration_needed'')
      | Some need \<Rightarrow>
          if truthy need then
            (case c ''current_iteration'' of
               None \<Rightarrow> Inl (KeyError ''current_iteration'')
             | Some cur \<Rightarrow>
                 (case c ''max_iterations'' of
                    None \<Rightarrow> Inl (KeyError ''max_iterations'')
                  | Some mx \<Rightarrow> py_lt cur mx))
          else Inr False)"

text \<open>\<^verbatim>\<open>c["current_iteration"] += 1\<close>\<close>

definition increment_iteration :: "context_dict \<Rightarrow> error + context_dict" where
  "increment_iteration c =
     (case c ''current_iteration'' of
        None \<Rightarrow> Inl (KeyError ''current_iteration'')
      | Some cur \<Rightarrow>
          (case py_add_one cur of
             Inl e \<Rightarrow> Inl e
           | Inr n \<Rightarrow> Inr (c(''current_iteration'' \<mapsto> VInt n))))"

text \<open>The text of \<^verbatim>\<open>{context_variables['current_iteration']}\<close> in the f-string.\<close>

fun py_str :: "pyval option \<Rightarrow> string" where
  "py_str (Some (VInt i)) = str_of_int i"
| "py_str (Some (VBool b)) = (if b then ''True'' else ''False'')"
| "py_str (Some (VStr s)) = s"
| "py_str v = ''''"

definition submit_revised_analysis ::
  "string \<Rightarrow> string \<Rightarrow> string list option \<Rightarrow> context_dict \<Rightarrow> outcome" where
  "submit_revised_analysis title' content' changes c =
     (let revised = RevisedAnalysis title' content' changes;
          c1 = c(''revised_analysis'' \<mapsto> VDict (RevisedAnalysis_dump revised))
      in case another_iteration c1 of
           Inl e \<Rightarrow> Inl (e, c1)
         | Inr True \<Rightarrow>
             (case increment_iteration c1 of
                Inl e \<Rightarrow> Inl (e, c1)
              | Inr c2 \<Rightarrow>
                  let c3 = c2(''current_stage'' \<mapsto> VStr (stage_value REVIEW));
                      c4 = c3(''analysis_draft'' \<mapsto>
                             VDict [(''title'', JStr (title revised)),
                                    (''content'', JStr (content revised))])
                  in Inr \<lparr>values' = ''Analysis revised. Starting iteration ''
                                       @ py_str (c4 ''current_iteration'')
                                       @ '' with another review.'',
                           agent = None,
                           context_variables = c4\<rparr>)
         | Inr False \<Rightarrow>
             let c2 = c1(''current_stage'' \<mapsto> VStr (stage_value FINAL))
             in Inr \<lparr>values' = ''Revisions complete. Moving to document finalization.'',
                      agent = None,
                      context_variables = c2\<rparr>)"

subsection \<open>Finalization\<close>

datatype FinalAnalysis = FinalAnalysis string string

fun FinalAnalysis_dump :: "FinalAnalysis \<Rightarrow> (string \<times> json) list" where
  "FinalAnalysis_dump (FinalAnalysis t c) = [(''title'', JStr t), (''content'', JStr c)]"

definition finalize_analysis :: "string \<Rightarrow> string \<Rightarrow> context_dict \<Rightarrow> outcome" where
  "finalize_analysis title' content' c =
     (let final = FinalAnalysis title' content';
          c1 = c(''final_analysis'' \<mapsto> VDict (FinalAnalysis_dump final));
          c2 = c1(''iteration_needed'' \<mapsto> VBool False)
      in Inr \<lparr>values' = ''Analysis finalized. Feedback loop complete.'',
               agent = Some report_recorder_agent,
               context_variables = c2\<rparr>)"

subsection \<open>The hand-offs registered between the agents\<close>

text \<open>
  A condition of an \<^verbatim>\<open>OnContextCondition\<close> is a predicate on the context; the
  target of an \<^verbatim>\<open>AfterWork\<close> is an agent or \<^verbatim>\<open>AfterWorkOption.REVERT_TO_USER\<close>.
\<close>

datatype next_step = NextAgent agent | REVERT_TO_USER

type_synonym on_context_condition = "agent \<times> (context_dict \<Rightarrow> bool)"

fun hand_to :: "agent \<Rightarrow> on_context_condition list" where
  "hand_to ingestion_agent =
     [(drafting_agent, \<lambda>c. c ''loop_started'' = Some (VBool True)
                            \<and> c ''current_stage'' = Some (VStr ''analysis''))]"
| "hand_to drafting_agent =
     [(review_agent, \<lambda>c. c ''current_stage'' = Some (VStr ''review''))]"
| "hand_to review_agent =
     [(revision_agent, \<lambda>c. c ''current_stage'' = Some (VStr ''revision''))]"
| "hand_to revision_agent =
     [(finalization_agent, \<lambda>c. c ''current_stage'' = Some (VStr ''final'')),
      (review_agent, \<lambda>c. c ''current_stage'' = Some (VStr ''review''))]"
| "hand_to finalization_agent = []"
| "hand_to report_recorder_agent = []"

text \<open>
  The \<^verbatim>\<open>AfterWork\<close> of an agent; an agent registered without one falls back to the
  \<^verbatim>\<open>after_work\<close> of \<^verbatim>\<open>initiate_swarm_chat\<close>, which is \<^verbatim>\<open>REVERT_TO_USER\<close>.
\<close>

fun after_work :: "agent \<Rightarrow> next_step" where
  "after_work finalization_agent = NextAgent report_recorder_agent"
| "after_work a = REVERT_TO_USER"

text \<open>
  Modelled from the spec: the resolution of the next executor by the orchestrator, which
  is the swarm loop of the agent library and not part of this program.  The spec
  (4.3, 4.5): the explicit override of a ToolResult takes precedence over the
  evaluation of the transition rules; the rules of the executor are evaluated in the
  order of their declaration against the updated context, and the first one whose guard
  holds gives the next executor; if none holds, the fallback of the executor applies.
\<close>

fun first_match :: "on_context_condition list \<Rightarrow> context_dict \<Rightarrow> agent option" where
  "first_match [] c = None"
| "first_match ((target, guard) # rules) c =
     (if guard c then Some target else first_match rules c)"

definition resolve_next ::
  "on_context_condition list \<Rightarrow> next_step \<Rightarrow> SwarmResult \<Rightarrow> next_step" where
  "resolve_next rules fallback r =
     (case agent r of
        Some a \<Rightarrow> NextAgent a
      | None \<Rightarrow>
          (case first_match rules (context_variables r) of
             Some a \<Rightarrow> NextAgent a
           | None \<Rightarrow> fallback))"

subsection \<open>Runs of the workflow\<close>

text \<open>
  A call of one of the tool functions that receive the context, with its arguments.
  \<^verbatim>\<open>write_report_to_file\<close> receives no context and cannot write to it.
\<close>

datatype tool_call =
  ReadData
| SubmitAnalysisDraft string string
| SubmitFeedback "FeedbackItem list" string "string list" bool
| SubmitRevisedAnalysis string string "string list option"
| FinalizeAnalysis string string

fun invoke :: "file_system \<Rightarrow> tool_call \<Rightarrow> context_dict \<Rightarrow> outcome" where
  "invoke fs ReadData c = read_data fs c"
| "invoke fs (SubmitAnalysisDraft t co) c = submit_analysis_draft t co c"
| "invoke fs (SubmitFeedback its oa ps b) c = submit_feedback its oa ps b c"
| "invoke fs (SubmitRevisedAnalysis t co ch) c = submit_revised_analysis t co ch c"
| "invoke fs (FinalizeAnalysis t co) c = finalize_analysis t co c"

text \<open>The context after a call: as returned, or as it stands when the call raises.\<close>

fun context_after :: "outcome \<Rightarrow> context_dict" where
  "context_after (Inl (e, c)) = c"
| "context_after (Inr r) = context_variables r"

text \<open>
  The context at the end of a sequence of calls.  An exception ends the run: the calls
  after it are not made.
\<close>

fun run :: "file_system \<Rightarrow> tool_call list \<Rightarrow> context_dict \<Rightarrow> context_dict" where
  "run fs [] c = c"
| "run fs (x # xs) c =
     (case invoke fs x c of
        Inl (e, c') \<Rightarrow> c'
      | Inr r \<Rightarrow> run fs xs (context_variables r))"

fun is_revision :: "tool_call \<Rightarrow> bool" where
  "is_revision (SubmitRevisedAnalysis t co ch) = True"
| "is_revision x = False"


text \<open>
  The iteration state of a context: \<^verbatim>\<open>current_iteration\<close>, \<^verbatim>\<open>max_iterations\<close> and
  \<^verbatim>\<open>iteration_needed\<close>, when the three keys hold two integers and a boolean.
\<close>

definition iteration_state :: "context_dict \<Rightarrow> (int \<times> int \<times> bool) option" where
  "iteration_state c =
     (case (c ''current_iteration'', c ''max_iterations'', c ''iteration_needed'') of
        (Some (VInt i), Some (VInt m), Some (VBool b)) \<Rightarrow> Some (i, m, b)
      | _ \<Rightarrow> None)"

fun is_feedback :: "tool_call \<Rightarrow> bool" where
  "is_feedback (SubmitFeedback its oa ps b) = True"
| "is_feedback x = False"

text \<open>The keys that the tool functions assign.\<close>

definition written_keys :: "string set" where
  "written_keys =
     {''fg_transcripts'', ''fg_objectives'', ''loop_started'', ''current_stage'',
      ''current_iteration'', ''analysis_draft'', ''feedback_collection'',
      ''iteration_needed'', ''revised_analysis'', ''final_analysis''}"

section \<open>Properties\<close>

subsection \<open>The decision point of the Revision submission\<close>

lemma another_iteration_typed:
  "c ''iteration_needed'' = Some (VBool need) \<Longrightarrow> c ''current_iteration'' = Some (VInt i) \<Longrightarrow>
   c ''max_iterations'' = Some (VInt m) \<Longrightarrow> another_iteration c = Inr (need \<and> i < m)"
  by (simp add: another_iteration_def)

lemma increment_iteration_typed:
  "c ''current_iteration'' = Some (VInt i) \<Longrightarrow>
   increment_iteration c = Inr (c(''current_iteration'' \<mapsto> VInt (i + 1)))"
  by (simp add: increment_iteration_def)

lemma iteration_state_Some:
  "iteration_state c = Some (i, m, b) \<longleftrightarrow>
     c ''current_iteration'' = Some (VInt i) \<and> c ''max_iterations'' = Some (VInt m) \<and>
     c ''iteration_needed'' = Some (VBool b)"
  by (auto simp: iteration_state_def split: option.splits pyval.splits)

lemma submit_revised_analysis_typed:
  assumes "c ''iteration_needed'' = Some (VBool need)"
    and "c ''current_iteration'' = Some (VInt i)"
    and "c ''max_iterations'' = Some (VInt m)"
  shows "\<exists>r. submit_revised_analysis t co ch c = Inr r \<and>
           context_variables r =
             (if need \<and> i < m
              then c(''revised_analysis'' \<mapsto> VDict (RevisedAnalysis_dump (RevisedAnalysis t co ch)),
                     ''current_iteration'' \<mapsto> VInt (i + 1),
                     ''current_stage'' \<mapsto> VStr ''review'',
                     ''analysis_draft'' \<mapsto> VDict [(''title'', JStr t), (''content'', JStr co)])
              else c(''revised_analysis'' \<mapsto> VDict (RevisedAnalysis_dump (RevisedAnalysis t co ch)),
                     ''current_stage'' \<mapsto> VStr ''final''))"
proof -
  let ?c1 = "c(''revised_analysis'' \<mapsto> VDict (RevisedAnalysis_dump (RevisedAnalysis t co ch)))"
  have a: "another_iteration ?c1 = Inr (need \<and> i < m)"
    using assms by (intro another_iteration_typed) simp_all
  have b: "increment_iteration ?c1 = Inr (?c1(''current_iteration'' \<mapsto> VInt (i + 1)))"
    using assms by (intro increment_iteration_typed) simp_all
  show ?thesis
    using a b by (cases need; cases "i < m") (simp_all add: submit_revised_analysis_def Let_def)
qed

lemma increment_iteration_Inr:
  "increment_iteration c = Inr c2 \<Longrightarrow>
   \<exists>cur n. c ''current_iteration'' = Some cur \<and> py_add_one cur = Inr n \<and>
           c2 = c(''current_iteration'' \<mapsto> VInt n)"
  by (auto simp: increment_iteration_def split: option.splits sum.splits)

lemma submit_revised_analysis_Inr:
  assumes "submit_revised_analysis t co ch c = Inr r"
  shows "(\<exists>c2. another_iteration (c(''revised_analysis'' \<mapsto> VDict (RevisedAnalysis_dump (RevisedAnalysis t co ch)))) = Inr True \<and>
            increment_iteration (c(''revised_analysis'' \<mapsto> VDict (RevisedAnalysis_dump (RevisedAnalysis t co ch)))) = Inr c2 \<and>
            context_variables r =
              c2(''current_stage'' \<mapsto> VStr ''review'',
                 ''analysis_draft'' \<mapsto> VDict [(''title'', JStr t), (''content'', JStr co)]))
       \<or> (another_iteration (c(''revised_analysis'' \<mapsto> VDict (RevisedAnalysis_dump (RevisedAnalysis t co ch)))) = Inr False \<and>
            context_variables r =
              c(''revised_analysis'' \<mapsto> VDict (RevisedAnalysis_dump (RevisedAnalysis t co ch)),
                ''current_stage'' \<mapsto> VStr ''final''))"
  using assms
  by (auto simp: submit_revised_analysis_def Let_def split: sum.splits bool.splits)

lemma submit_revised_analysis_stage:
  assumes "submit_revised_analysis t co ch c = Inr r"
  shows "context_variables r ''current_stage'' = Some (VStr ''review'') \<or>
         context_variables r ''current_stage'' = Some (VStr ''final'')"
  using submit_revised_analysis_Inr [OF assms] by auto

text \<open>
  Claim C1.  In a context whose \<^verbatim>\<open>iteration_needed\<close> is a boolean and whose
  \<^verbatim>\<open>current_iteration\<close> and \<^verbatim>\<open>max_iterations\<close> are integers, a Revision
  submission returns, and the context it returns is the one it received with the
  submitted revision, the dictionary of its \<^verbatim>\<open>title\<close>, \<^verbatim>\<open>content\<close> and
  \<^verbatim>\<open>changes_made\<close> (\<^verbatim>\<open>None\<close> or the list of strings), stored under
  \<^verbatim>\<open>revised_analysis\<close> and, if \<^verbatim>\<open>iteration_needed\<close>
  is true and \<^verbatim>\<open>current_iteration < max_iterations\<close>, with \<^verbatim>\<open>current_iteration\<close>
  incremented by one, the stage set to \<^verbatim>\<open>'review'\<close> and \<^verbatim>\<open>analysis_draft\<close>
  overwritten with the title and content of the revision; otherwise with the stage set
  to \<^verbatim>\<open>'final'\<close> and nothing else changed.
\<close>

theorem C1_submit_revised_analysis_decision:
  assumes "c ''iteration_needed'' = Some (VBool need)"
    and "c ''current_iteration'' = Some (VInt i)"
    and "c ''max_iterations'' = Some (VInt m)"
  shows "\<exists>r. submit_revised_analysis t co ch c = Inr r \<and>
           context_variables r =
             (if need \<and> i < m
              then c(''revised_analysis'' \<mapsto>
                       VDict [(''title'', JStr t), (''content'', JStr co),
                              (''changes_made'',
                               (case ch of None \<Rightarrow> JNone | Some xs \<Rightarrow> JList (map JStr xs)))],
                     ''current_iteration'' \<mapsto> VInt (i + 1),
                     ''current_stage'' \<mapsto> VStr ''review'',
                     ''analysis_draft'' \<mapsto> VDict [(''title'', JStr t), (''content'', JStr co)])
              else c(''revised_analysis'' \<mapsto>
                       VDict [(''title'', JStr t), (''content'', JStr co),
                              (''changes_made'',
                               (case ch of None \<Rightarrow> JNone | Some xs \<Rightarrow> JList (map JStr xs)))],
                     ''current_stage'' \<mapsto> VStr ''final''))"
  using submit_revised_analysis_typed [OF assms, of t co ch]
  by (cases "need \<and> i < m") auto

theorem C1_submit_revised_analysis_decision_witness:
  "shared_context ''iteration_needed'' = Some (VBool True) \<and>
   shared_context ''current_iteration'' = Some (VInt 0) \<and>
   shared_context ''max_iterations'' = Some (VInt 3) \<and>
   (\<exists>r. submit_revised_analysis ''T'' ''C'' None shared_context = Inr r \<and>
        context_variables r ''current_iteration'' = Some (VInt 1) \<and>
        context_variables r ''current_stage'' = Some (VStr ''review'') \<and>
        context_variables r ''analysis_draft'' = Some (VDict [(''title'', JStr ''T''), (''content'', JStr ''C'')]) \<and>
        context_variables r ''revised_analysis'' =
          Some (VDict [(''title'', JStr ''T''), (''content'', JStr ''C''), (''changes_made'', JNone)]))"
proof -
  have h1: "shared_context ''iteration_needed'' = Some (VBool True)"
    and h2: "shared_context ''current_iteration'' = Some (VInt 0)"
    and h3: "shared_context ''max_iterations'' = Some (VInt 3)"
    by (simp_all add: shared_context_def)
  from C1_submit_revised_analysis_decision [OF h1 h2 h3, of "''T''" "''C''" None]
  show ?thesis using h1 h2 h3 by auto
qed

text \<open>
  Claim C5.  Whenever a Revision submission returns with the stage set to
  \<^verbatim>\<open>'review'\<close> (the loop edge), the value stored under \<^verbatim>\<open>analysis_draft\<close> is the
  dictionary of exactly the two fields \<^verbatim>\<open>title\<close> and \<^verbatim>\<open>content\<close> of the revision
  just submitted; it has no \<^verbatim>\<open>changes_made\<close> field.
\<close>

theorem C5_loop_edge_round_trip:
  assumes "submit_revised_analysis t co ch c = Inr r"
    and "context_variables r ''current_stage'' = Some (VStr ''review'')"
  shows "\<exists>d. context_variables r ''analysis_draft'' = Some (VDict d) \<and>
             d = [(''title'', JStr t), (''content'', JStr co)] \<and>
             map fst d = [''title'', ''content''] \<and>
             map_of d ''changes_made'' = None"
  using submit_revised_analysis_Inr [OF assms(1)] assms(2) by auto

theorem C5_loop_edge_round_trip_witness:
  "\<exists>r. submit_revised_analysis ''T'' ''C'' (Some [''shorter'']) shared_context = Inr r \<and>
       context_variables r ''current_stage'' = Some (VStr ''review'') \<and>
       context_variables r ''analysis_draft'' = Some (VDict [(''title'', JStr ''T''), (''content'', JStr ''C'')])"
proof -
  have "\<exists>r. submit_revised_analysis ''T'' ''C'' (Some [''shorter'']) shared_context = Inr r \<and>
            context_variables r ''current_stage'' = Some (VStr ''review'')"
    by (simp add: submit_revised_analysis_def another_iteration_def increment_iteration_def
          shared_context_def Let_def)
  then obtain r where r: "submit_revised_analysis ''T'' ''C'' (Some [''shorter'']) shared_context = Inr r"
    "context_variables r ''current_stage'' = Some (VStr ''review'')" by blast
  from C5_loop_edge_round_trip [OF r] r show ?thesis by auto
qed

text \<open>
  Claim C7.  A Revision submission that returns leaves the stage at exactly one of
  \<^verbatim>\<open>'review'\<close> and \<^verbatim>\<open>'final'\<close>.  In a context whose iteration state is well
  formed it does return, and exactly one of the two branches has taken effect: either
  the stage is \<^verbatim>\<open>'review'\<close>, the iteration count is incremented and the draft is
  overwritten, or the stage is \<^verbatim>\<open>'final'\<close> and the iteration count and the draft are
  what they were.
\<close>

theorem C7_revision_exactly_one_branch:
  "(\<forall>r. submit_revised_analysis t co ch c = Inr r \<longrightarrow>
       (context_variables r ''current_stage'' = Some (VStr ''review''))
         \<noteq> (context_variables r ''current_stage'' = Some (VStr ''final''))) \<and>
   (iteration_state c = Some (i, m, b) \<longrightarrow>
     (\<exists>r. submit_revised_analysis t co ch c = Inr r \<and>
       ((context_variables r ''current_stage'' = Some (VStr ''review'') \<and>
         context_variables r ''current_iteration'' = Some (VInt (i + 1)) \<and>
         context_variables r ''analysis_draft'' = Some (VDict [(''title'', JStr t), (''content'', JStr co)]))
        \<noteq>
        (context_variables r ''current_stage'' = Some (VStr ''final'') \<and>
         context_variables r ''current_iteration'' = Some (VInt i) \<and>
         context_variables r ''analysis_draft'' = c ''analysis_draft''))))"
proof (intro conjI allI impI)
  fix r assume "submit_revised_analysis t co ch c = Inr r"
  from submit_revised_analysis_stage [OF this]
  show "(context_variables r ''current_stage'' = Some (VStr ''review''))
         \<noteq> (context_variables r ''current_stage'' = Some (VStr ''final''))"
    by auto
next
  assume "iteration_state c = Some (i, m, b)"
  then have k: "c ''iteration_needed'' = Some (VBool b)" "c ''current_iteration'' = Some (VInt i)"
    "c ''max_iterations'' = Some (VInt m)"
    by (simp_all add: iteration_state_Some)
  from submit_revised_analysis_typed [OF k, of t co ch]
  obtain r where r: "submit_revised_analysis t co ch c = Inr r"
    and cv: "context_variables r =
             (if b \<and> i < m
              then c(''revised_analysis'' \<mapsto> VDict (RevisedAnalysis_dump (RevisedAnalysis t co ch)),
                     ''current_iteration'' \<mapsto> VInt (i + 1),
                     ''current_stage'' \<mapsto> VStr ''review'',
                     ''analysis_draft'' \<mapsto> VDict [(''title'', JStr t), (''content'', JStr co)])
              else c(''revised_analysis'' \<mapsto> VDict (RevisedAnalysis_dump (RevisedAnalysis t co ch)),
                     ''current_stage'' \<mapsto> VStr ''final''))"
    by blast
  show "\<exists>r. submit_revised_analysis t co ch c = Inr r \<and>
       ((context_variables r ''current_stage'' = Some (VStr ''review'') \<and>
         context_variables r ''current_iteration'' = Some (VInt (i + 1)) \<and>
         context_variables r ''analysis_draft'' = Some (VDict [(''title'', JStr t), (''content'', JStr co)]))
        \<noteq>
        (context_variables r ''current_stage'' = Some (VStr ''final'') \<and>
         context_variables r ''current_iteration'' = Some (VInt i) \<and>
         context_variables r ''analysis_draft'' = c ''analysis_draft''))"
    using r cv k by (intro exI [of _ r]) (cases "b \<and> i < m"; simp)
qed


theorem C7_revision_exactly_one_branch_witness:
  "iteration_state shared_context = Some (0, 3, True) \<and>
   (\<exists>r. submit_revised_analysis ''T'' ''C'' None shared_context = Inr r \<and>
        context_variables r ''current_stage'' = Some (VStr ''review'') \<and>
        context_variables r ''current_stage'' \<noteq> Some (VStr ''final''))"
proof -
  have h: "iteration_state shared_context = Some (0, 3, True)"
    by (simp add: iteration_state_def shared_context_def)
  from C7_revision_exactly_one_branch [of "''T''" "''C''" None shared_context 0 3 True] h
  obtain r where r: "submit_revised_analysis ''T'' ''C'' None shared_context = Inr r"
    and x: "(context_variables r ''current_stage'' = Some (VStr ''review''))
             \<noteq> (context_variables r ''current_stage'' = Some (VStr ''final''))"
    by blast
  have "context_variables r ''current_stage'' = Some (VStr ''review'')"
    using r by (auto simp: submit_revised_analysis_def another_iteration_def
        increment_iteration_def shared_context_def Let_def)
  with r x h show ?thesis by auto
qed

subsection \<open>Keys that no tool function writes\<close>

lemma read_data_frame:
  "k \<notin> written_keys \<Longrightarrow> context_after (read_data fs c) k = c k"
  by (auto simp: read_data_def written_keys_def Let_def split: option.splits)

lemma submit_revised_analysis_frame:
  assumes "k \<notin> written_keys"
  shows "context_after (submit_revised_analysis t co ch c) k = c k"
proof (cases "submit_revised_analysis t co ch c")
  case (Inl a)
  then show ?thesis using assms
    by (auto simp: submit_revised_analysis_def written_keys_def Let_def
        split: sum.splits bool.splits)
next
  case (Inr r)
  from submit_revised_analysis_Inr [OF Inr] show ?thesis using assms Inr
    by (auto simp: written_keys_def dest!: increment_iteration_Inr)
qed

lemma invoke_frame:
  "k \<notin> written_keys \<Longrightarrow> context_after (invoke fs x c) k = c k"
proof (cases x)
  case ReadData
  then show "k \<notin> written_keys \<Longrightarrow> ?thesis" by (simp add: read_data_frame)
next
  case (SubmitRevisedAnalysis t co ch)
  then show "k \<notin> written_keys \<Longrightarrow> ?thesis" by (simp add: submit_revised_analysis_frame)
qed (auto simp: written_keys_def submit_analysis_draft_def submit_feedback_def
      finalize_analysis_def Let_def)

lemma run_frame:
  "k \<notin> written_keys \<Longrightarrow> run fs ops c k = c k"
proof (induction ops arbitrary: c)
  case Nil
  then show ?case by simp
next
  case (Cons x xs)
  show ?case
  proof (cases "invoke fs x c")
    case (Inl a)
    then show ?thesis using invoke_frame [OF Cons.prems, of fs x c]
      by (cases a) simp
  next
    case (Inr r)
    then show ?thesis using invoke_frame [OF Cons.prems, of fs x c] Cons.IH [OF Cons.prems]
      by simp
  qed
qed

subsection \<open>The Review submission\<close>

text \<open>
  Claim C8, as amended.  A Review submission is accepted whatever its list of items, the
  empty list with \<^verbatim>\<open>iteration_needed\<close> true included: \<^verbatim>\<open>submit_feedback\<close> has no
  check relating the items to \<^verbatim>\<open>iteration_needed\<close>.  It always returns; it stores the
  collection as submitted under \<^verbatim>\<open>feedback_collection\<close>, copies
  \<^verbatim>\<open>iteration_needed\<close> into the context and sets the stage to \<^verbatim>\<open>'revision'\<close>.
\<close>

theorem C8_submit_feedback_accepts_any_items:
  "\<exists>r. submit_feedback its oa ps b c = Inr r \<and>
       context_variables r =
         c(''feedback_collection'' \<mapsto>
             VDict [(''items'', JList (map FeedbackItem_dump its)),
                    (''overall_assessment'', JStr oa),
                    (''priority_issues'', JList (map JStr ps)),
                    (''iteration_needed'', JBool b)],
           ''iteration_needed'' \<mapsto> VBool b,
           ''current_stage'' \<mapsto> VStr ''revision'')"
  by (simp add: submit_feedback_def Let_def)

theorem C8_submit_feedback_accepts_any_items_witness:
  "\<exists>r. submit_feedback [FeedbackItem ''too short'' ''major'' None] ''weak'' [''length''] True shared_context = Inr r \<and>
       context_variables r ''iteration_needed'' = Some (VBool True) \<and>
       context_variables r ''current_stage'' = Some (VStr ''revision'') \<and>
       context_variables r ''feedback_collection'' =
         Some (VDict [(''items'', JList [JDict [(''feedback'', JStr ''too short''), (''severity'', JStr ''major''),
                                              (''recommendation'', JNone)]]),
                      (''overall_assessment'', JStr ''weak''),
                      (''priority_issues'', JList [JStr ''length'']),
                      (''iteration_needed'', JBool True)])"
  using C8_submit_feedback_accepts_any_items
    [of "[FeedbackItem ''too short'' ''major'' None]" "''weak''" "[''length'']" True shared_context]
  by auto

text \<open>
  The claim as stated fails: a submission with \<^verbatim>\<open>iteration_needed\<close> true and no item
  is accepted and stored.
\<close>

theorem C8_empty_items_accepted_counterexample:
  "\<not> isl (submit_feedback [] ''needs work'' [] True shared_context) \<and>
   context_after (submit_feedback [] ''needs work'' [] True shared_context) ''iteration_needed''
     = Some (VBool True) \<and>
   context_after (submit_feedback [] ''needs work'' [] True shared_context) ''current_stage''
     = Some (VStr ''revision'') \<and>
   context_after (submit_feedback [] ''needs work'' [] True shared_context) ''feedback_collection''
     = Some (VDict [(''items'', JList []),
                    (''overall_assessment'', JStr ''needs work''),
                    (''priority_issues'', JList []),
                    (''iteration_needed'', JBool True)])"
  by (simp add: submit_feedback_def Let_def)

subsection \<open>The error fields of the context\<close>

text \<open>
  Claim C9, as amended.  No tool function writes \<^verbatim>\<open>has_error\<close>,
  \<^verbatim>\<open>error_message\<close> or \<^verbatim>\<open>error_stage\<close>: after every call, whether it returns or
  raises, the three keys hold what they held before, and at the end of every run from the
  initial context, a run ended by an exception included, they hold their initial
  values.  A failure shows only in the exception that propagates.
\<close>

theorem C9_error_fields_never_written:
  "context_after (invoke fs x c) ''has_error'' = c ''has_error'' \<and>
   context_after (invoke fs x c) ''error_message'' = c ''error_message'' \<and>
   context_after (invoke fs x c) ''error_stage'' = c ''error_stage'' \<and>
   run fs ops (initial_context m) ''has_error'' = Some (VBool False) \<and>
   run fs ops (initial_context m) ''error_message'' = Some (VStr '''') \<and>
   run fs ops (initial_context m) ''error_stage'' = Some (VStr '''')"
proof -
  have k: "''has_error'' \<notin> written_keys" "''error_message'' \<notin> written_keys"
    "''error_stage'' \<notin> written_keys"
    by (simp_all add: written_keys_def)
  have i: "initial_context m ''has_error'' = Some (VBool False)"
    "initial_context m ''error_message'' = Some (VStr '''')"
    "initial_context m ''error_stage'' = Some (VStr '''')"
    by (simp_all add: initial_context_def shared_context_def)
  show ?thesis
    using k i by (simp add: invoke_frame run_frame)
qed

theorem C9_error_fields_never_written_witness:
  "isl (invoke [''data/transcripts.md'' \<mapsto> ''t''] (SubmitRevisedAnalysis ''T'' ''C'' None) Map.empty) \<and>
   context_after (invoke [''data/transcripts.md'' \<mapsto> ''t''] (SubmitRevisedAnalysis ''T'' ''C'' None) Map.empty) ''has_error'' = None \<and>
   run [''data/transcripts.md'' \<mapsto> ''t''] [ReadData, FinalizeAnalysis ''T'' ''C''] (initial_context 3) ''has_error''
     = Some (VBool False) \<and>
   run [''data/transcripts.md'' \<mapsto> ''t''] [ReadData, FinalizeAnalysis ''T'' ''C''] (initial_context 3) ''fg_transcripts''
     = Some (VStr ''t'') \<and>
   run [''data/transcripts.md'' \<mapsto> ''t''] [ReadData, FinalizeAnalysis ''T'' ''C''] (initial_context 3) ''final_analysis''
     = None"
  using C9_error_fields_never_written
    [of "[''data/transcripts.md'' \<mapsto> ''t'']" "SubmitRevisedAnalysis ''T'' ''C'' None" Map.empty
        "[ReadData, FinalizeAnalysis ''T'' ''C'']" 3]
  by (simp add: submit_revised_analysis_def another_iteration_def read_data_def Let_def
      initial_context_def shared_context_def)

text \<open>
  The claim as stated fails: when the transcripts file is missing, \<^verbatim>\<open>read_data\<close>
  raises and the three error fields are still at their defaults.
\<close>

theorem C9_read_failure_leaves_defaults_counterexample:
  "read_data Map.empty shared_context = Inl (FileNotFoundError ''data/transcripts.md'', shared_context) \<and>
   context_after (read_data Map.empty shared_context) ''has_error'' = Some (VBool False) \<and>
   context_after (read_data Map.empty shared_context) ''error_message'' = Some (VStr '''') \<and>
   context_after (read_data Map.empty shared_context) ''error_stage'' = Some (VStr '''')"
  by (simp add: read_data_def shared_context_def)

subsection \<open>The keys of the initial context that stay unused\<close>

lemma initial_context_3: "initial_context 3 = shared_context"
  by (rule ext) (simp add: initial_context_def shared_context_def)

text \<open>
  Claim C10.  No tool function writes \<^verbatim>\<open>focus_group_transcripts\<close>,
  \<^verbatim>\<open>focus_group_objectives\<close> or \<^verbatim>\<open>final_report\<close>: every call, returning or
  raising, leaves them as they were, and at the end of every run from the initial
  context they hold their initial values, the empty string twice and the empty
  dictionary.  The keys \<^verbatim>\<open>fg_transcripts\<close>, \<^verbatim>\<open>fg_objectives\<close> and
  \<^verbatim>\<open>final_analysis\<close> have no value in the initial context; \<^verbatim>\<open>read_data\<close> stores
  the two texts it loads under the first two (and raises if a file is missing), and
  \<^verbatim>\<open>finalize_analysis\<close> stores its result under the third.
\<close>

theorem C10_unused_initial_keys_keep_their_values:
  "context_after (invoke fs x c) ''focus_group_transcripts'' = c ''focus_group_transcripts'' \<and>
   context_after (invoke fs x c) ''focus_group_objectives'' = c ''focus_group_objectives'' \<and>
   context_after (invoke fs x c) ''final_report'' = c ''final_report'' \<and>
   run fs ops (initial_context m) ''focus_group_transcripts'' = Some (VStr '''') \<and>
   run fs ops (initial_context m) ''focus_group_objectives'' = Some (VStr '''') \<and>
   run fs ops (initial_context m) ''final_report'' = Some (VDict []) \<and>
   initial_context m ''fg_transcripts'' = None \<and>
   initial_context m ''fg_objectives'' = None \<and>
   initial_context m ''final_analysis'' = None \<and>
   (case (fs ''data/transcripts.md'', fs ''data/objectives.md'') of
      (Some transcripts, Some objectives) \<Rightarrow>
        context_after (read_data fs c) ''fg_transcripts'' = Some (VStr transcripts) \<and>
        context_after (read_data fs c) ''fg_objectives'' = Some (VStr objectives)
    | _ \<Rightarrow> isl (read_data fs c)) \<and>
   context_after (finalize_analysis t co c) ''final_analysis''
     = Some (VDict [(''title'', JStr t), (''content'', JStr co)])"
proof -
  have k: "''focus_group_transcripts'' \<notin> written_keys" "''focus_group_objectives'' \<notin> written_keys"
    "''final_report'' \<notin> written_keys"
    by (simp_all add: written_keys_def)
  have i: "initial_context m ''focus_group_transcripts'' = Some (VStr '''')"
    "initial_context m ''focus_group_objectives'' = Some (VStr '''')"
    "initial_context m ''final_report'' = Some (VDict [])"
    "initial_context m ''fg_transcripts'' = None"
    "initial_context m ''fg_objectives'' = None"
    "initial_context m ''final_analysis'' = None"
    by (simp_all add: initial_context_def shared_context_def)
  have r: "(case (fs ''data/transcripts.md'', fs ''data/objectives.md'') of
      (Some transcripts, Some objectives) \<Rightarrow>
        context_after (read_data fs c) ''fg_transcripts'' = Some (VStr transcripts) \<and>
        context_after (read_data fs c) ''fg_objectives'' = Some (VStr objectives)
    | _ \<Rightarrow> isl (read_data fs c))"
    by (simp add: read_data_def Let_def split: option.splits)
  have f: "context_after (finalize_analysis t co c) ''final_analysis''
     = Some (VDict [(''title'', JStr t), (''content'', JStr co)])"
    by (simp add: finalize_analysis_def Let_def)
  show ?thesis
    using k i r f by (simp only: invoke_frame run_frame simp_thms)
qed

theorem C10_unused_initial_keys_keep_their_values_witness:
  "run [''data/transcripts.md'' \<mapsto> ''t'', ''data/objectives.md'' \<mapsto> ''o'']
       [ReadData, SubmitAnalysisDraft ''T'' ''C'', FinalizeAnalysis ''T'' ''C''] shared_context
       ''focus_group_transcripts'' = Some (VStr '''') \<and>
   run [''data/transcripts.md'' \<mapsto> ''t'', ''data/objectives.md'' \<mapsto> ''o'']
       [ReadData, SubmitAnalysisDraft ''T'' ''C'', FinalizeAnalysis ''T'' ''C''] shared_context
       ''final_report'' = Some (VDict []) \<and>
   run [''data/transcripts.md'' \<mapsto> ''t'', ''data/objectives.md'' \<mapsto> ''o'']
       [ReadData, SubmitAnalysisDraft ''T'' ''C'', FinalizeAnalysis ''T'' ''C''] shared_context
       ''fg_transcripts'' = Some (VStr ''t'') \<and>
   run [''data/transcripts.md'' \<mapsto> ''t'', ''data/objectives.md'' \<mapsto> ''o'']
       [ReadData, SubmitAnalysisDraft ''T'' ''C'', FinalizeAnalysis ''T'' ''C''] shared_context
       ''final_analysis'' = Some (VDict [(''title'', JStr ''T''), (''content'', JStr ''C'')])"
  using C10_unused_initial_keys_keep_their_values
    [where fs = "[''data/transcripts.md'' \<mapsto> ''t'', ''data/objectives.md'' \<mapsto> ''o'']"
       and ops = "[ReadData, SubmitAnalysisDraft ''T'' ''C'', FinalizeAnalysis ''T'' ''C'']"
       and m = 3]
  by (simp add: initial_context_3)
    (simp add: read_data_def submit_analysis_draft_def finalize_analysis_def Let_def)

subsection \<open>Finalization\<close>

text \<open>
  Claim C6.  \<^verbatim>\<open>finalize_analysis\<close> always returns; the context it returns is the one
  it received with the submitted title and content stored under \<^verbatim>\<open>final_analysis\<close>
  and \<^verbatim>\<open>iteration_needed\<close> set to false, and its result names
  \<^verbatim>\<open>report_recorder_agent\<close> as the next agent.  Under the resolution of the next
  executor, that agent is the next one whatever the transition rules and the fallback
  are, in particular under the hand-offs registered for \<^verbatim>\<open>finalization_agent\<close>.
\<close>

theorem C6_finalize_analysis_designates_recorder:
  "\<exists>r. finalize_analysis t co c = Inr r \<and>
       context_variables r =
         c(''final_analysis'' \<mapsto> VDict [(''title'', JStr t), (''content'', JStr co)],
           ''iteration_needed'' \<mapsto> VBool False) \<and>
       agent r = Some report_recorder_agent \<and>
       resolve_next rules fallback r = NextAgent report_recorder_agent \<and>
       resolve_next (hand_to finalization_agent) (after_work finalization_agent) r
         = NextAgent report_recorder_agent"
  by (simp add: finalize_analysis_def resolve_next_def Let_def)

theorem C6_finalize_analysis_designates_recorder_witness:
  "\<exists>r. finalize_analysis ''T'' ''C'' shared_context = Inr r \<and>
       context_variables r ''final_analysis'' = Some (VDict [(''title'', JStr ''T''), (''content'', JStr ''C'')]) \<and>
       context_variables r ''iteration_needed'' = Some (VBool False) \<and>
       agent r = Some report_recorder_agent \<and>
       first_match [(review_agent, \<lambda>c. True)] (context_variables r) = Some review_agent \<and>
       resolve_next [(review_agent, \<lambda>c. True)] REVERT_TO_USER r = NextAgent report_recorder_agent"
  using C6_finalize_analysis_designates_recorder
    [of "''T''" "''C''" shared_context "[(review_agent, \<lambda>c. True)]" REVERT_TO_USER]
  by auto

subsection \<open>A review that asks for no further iteration\<close>

lemma submit_revised_analysis_frame_keys:
  assumes "k \<notin> {''revised_analysis'', ''current_iteration'', ''current_stage'', ''analysis_draft''}"
  shows "context_after (submit_revised_analysis t co ch c) k = c k"
proof (cases "submit_revised_analysis t co ch c")
  case (Inl a)
  then show ?thesis using assms
    by (auto simp: submit_revised_analysis_def Let_def split: sum.splits bool.splits)
next
  case (Inr r)
  from submit_revised_analysis_Inr [OF Inr] show ?thesis using assms Inr
    by (auto dest!: increment_iteration_Inr)
qed

lemma invoke_keeps_iteration_not_needed:
  assumes "c ''iteration_needed'' = Some (VBool False)" and "\<not> is_feedback x"
  shows "context_after (invoke fs x c) ''iteration_needed'' = Some (VBool False)"
proof (cases x)
  case ReadData
  then show ?thesis using assms by (simp add: read_data_def Let_def split: option.splits)
next
  case (SubmitAnalysisDraft t co)
  then show ?thesis using assms by (simp add: submit_analysis_draft_def Let_def)
next
  case (SubmitFeedback its oa ps b)
  then show ?thesis using assms by simp
next
  case (SubmitRevisedAnalysis t co ch)
  then show ?thesis using assms by (simp add: submit_revised_analysis_frame_keys)
next
  case (FinalizeAnalysis t co)
  then show ?thesis by (simp add: finalize_analysis_def Let_def)
qed

lemma run_keeps_iteration_not_needed:
  "c ''iteration_needed'' = Some (VBool False) \<Longrightarrow> \<forall>x\<in>set ops. \<not> is_feedback x \<Longrightarrow>
   run fs ops c ''iteration_needed'' = Some (VBool False)"
proof (induction ops arbitrary: c)
  case Nil
  then show ?case by simp
next
  case (Cons x xs)
  have nf: "\<not> is_feedback x" and rest: "\<forall>y\<in>set xs. \<not> is_feedback y"
    using Cons.prems(2) by simp_all
  have step: "context_after (invoke fs x c) ''iteration_needed'' = Some (VBool False)"
    using Cons.prems(1) nf by (rule invoke_keeps_iteration_not_needed)
  show ?case
  proof (cases "invoke fs x c")
    case (Inl a)
    then show ?thesis using step by (cases a) simp
  next
    case (Inr r)
    then show ?thesis using step Cons.IH [OF _ rest] by simp
  qed
qed

lemma submit_revised_analysis_not_needed:
  assumes "c ''iteration_needed'' = Some (VBool False)"
  shows "\<exists>r. submit_revised_analysis t co ch c = Inr r \<and>
             context_variables r ''current_stage'' = Some (VStr ''final'')"
  using assms by (simp add: submit_revised_analysis_def another_iteration_def Let_def)

text \<open>
  Claim C4.  Take any context, let a Review submission set \<^verbatim>\<open>iteration_needed\<close> to
  false, and let any calls that are not Review submissions follow.  Then the next
  Revision submission returns with the stage set to \<^verbatim>\<open>'final'\<close>, whatever
  \<^verbatim>\<open>current_iteration\<close> and \<^verbatim>\<open>max_iterations\<close> hold, even if they are missing.
\<close>

theorem C4_no_iteration_needed_goes_final:
  assumes "\<forall>x\<in>set mid. \<not> is_feedback x"
  shows "\<exists>r. submit_revised_analysis t co ch
               (run fs mid (context_after (submit_feedback its oa ps False c))) = Inr r \<and>
             context_variables r ''current_stage'' = Some (VStr ''final'')"
proof -
  have "context_after (submit_feedback its oa ps False c) ''iteration_needed'' = Some (VBool False)"
    by (simp add: submit_feedback_def Let_def)
  then have "run fs mid (context_after (submit_feedback its oa ps False c)) ''iteration_needed''
               = Some (VBool False)"
    using assms by (rule run_keeps_iteration_not_needed)
  then show ?thesis by (rule submit_revised_analysis_not_needed)
qed

theorem C4_no_iteration_needed_goes_final_witness:
  "\<not> is_feedback (SubmitAnalysisDraft ''D'' ''E'') \<and>
   (\<exists>r. submit_revised_analysis ''T'' ''C'' None
          (run Map.empty [SubmitAnalysisDraft ''D'' ''E'']
             (context_after (submit_feedback [] ''fine'' [] False shared_context))) = Inr r \<and>
        context_variables r ''current_stage'' = Some (VStr ''final'') \<and>
        context_variables r ''current_iteration'' = Some (VInt 0) \<and>
        context_variables r ''max_iterations'' = Some (VInt 3))"
proof -
  have h: "\<forall>x\<in>set [SubmitAnalysisDraft ''D'' ''E'']. \<not> is_feedback x" by simp
  from C4_no_iteration_needed_goes_final [OF h, of "''T''" "''C''" None Map.empty "[]" "''fine''" "[]" shared_context]
  obtain r where r: "submit_revised_analysis ''T'' ''C'' None
          (run Map.empty [SubmitAnalysisDraft ''D'' ''E'']
             (context_after (submit_feedback [] ''fine'' [] False shared_context))) = Inr r"
    and s: "context_variables r ''current_stage'' = Some (VStr ''final'')" by blast
  have "context_variables r ''current_iteration'' = Some (VInt 0) \<and>
        context_variables r ''max_iterations'' = Some (VInt 3)"
    using r by (auto simp: submit_revised_analysis_def another_iteration_def submit_feedback_def
        submit_analysis_draft_def shared_context_def Let_def)
  with r s show ?thesis by simp
qed

subsection \<open>The iteration count along a run\<close>

lemma invoke_iteration_state:
  assumes "iteration_state c = Some (i, m, b)"
  shows "\<exists>j b'. iteration_state (context_after (invoke fs x c)) = Some (j, m, b') \<and>
           (j = i \<or> (j = i + 1 \<and> i < m \<and> is_revision x) \<or> (j = 1 \<and> x = ReadData))"
proof -
  have k: "c ''iteration_needed'' = Some (VBool b)" "c ''current_iteration'' = Some (VInt i)"
    "c ''max_iterations'' = Some (VInt m)"
    using assms by (simp_all add: iteration_state_Some)
  show ?thesis
  proof (cases x)
    case ReadData
    then show ?thesis using k
      by (auto simp: read_data_def iteration_state_Some Let_def split: option.splits)
  next
    case (SubmitAnalysisDraft t co)
    then show ?thesis using k by (auto simp: submit_analysis_draft_def iteration_state_Some Let_def)
  next
    case (SubmitFeedback its oa ps b2)
    then show ?thesis using k by (auto simp: submit_feedback_def iteration_state_Some Let_def)
  next
    case (SubmitRevisedAnalysis t co ch)
    from submit_revised_analysis_typed [OF k, of t co ch]
    show ?thesis using SubmitRevisedAnalysis k
      by (cases "b \<and> i < m") (auto simp: iteration_state_Some)
  next
    case (FinalizeAnalysis t co)
    then show ?thesis using k by (auto simp: finalize_analysis_def iteration_state_Some Let_def)
  qed
qed

lemma run_iteration_state:
  "iteration_state c = Some (i, m, b) \<Longrightarrow> 0 \<le> i \<Longrightarrow> i \<le> m \<Longrightarrow> 1 \<le> m \<Longrightarrow>
   \<exists>j b'. iteration_state (run fs ops c) = Some (j, m, b') \<and> 0 \<le> j \<and> j \<le> m"
proof (induction ops arbitrary: c i b)
  case Nil
  then show ?case by simp
next
  case (Cons x xs)
  from invoke_iteration_state [OF Cons.prems(1), of fs x]
  obtain j b' where s: "iteration_state (context_after (invoke fs x c)) = Some (j, m, b')"
    and j: "j = i \<or> (j = i + 1 \<and> i < m \<and> is_revision x) \<or> (j = 1 \<and> x = ReadData)"
    by blast
  have bounds: "0 \<le> j" "j \<le> m" using j Cons.prems(2-4) by auto
  show ?case
  proof (cases "invoke fs x c")
    case (Inl a)
    then show ?thesis using s bounds by (cases a) simp
  next
    case (Inr r)
    then show ?thesis using Cons.IH [OF _ bounds Cons.prems(4), of "context_variables r" b'] s
      by simp
  qed
qed

text \<open>
  Claim C2, as amended.  Let the ceiling be at least 1 and take the context at the end of
  any sequence of calls from the initial context.  Its iteration state is well formed,
  \<^verbatim>\<open>max_iterations\<close> is the ceiling and \<^verbatim>\<open>0 \<le> current_iteration \<le> max_iterations\<close>,
  whatever the stage; the same holds after one more call, returning or raising.  Across
  that call \<^verbatim>\<open>current_iteration\<close> does not decrease if the call is not
  \<^verbatim>\<open>read_data\<close>, or if \<^verbatim>\<open>current_iteration\<close> was at most 1 before it, as at the
  first ingestion.
\<close>

theorem C2_iteration_count_bounded_and_monotone:
  assumes "1 \<le> m"
  shows "\<exists>i b. iteration_state (run fs ops (initial_context m)) = Some (i, m, b) \<and>
           0 \<le> i \<and> i \<le> m \<and>
           (\<exists>j b'. iteration_state (context_after (invoke fs x (run fs ops (initial_context m))))
                     = Some (j, m, b') \<and>
                   0 \<le> j \<and> j \<le> m \<and>
                   (x \<noteq> ReadData \<or> i \<le> 1 \<longrightarrow> i \<le> j))"
proof -
  have init: "iteration_state (initial_context m) = Some (0, m, True)"
    by (simp add: iteration_state_def initial_context_def shared_context_def)
  from run_iteration_state [OF init _ _ assms, of fs ops] assms
  obtain i b where s: "iteration_state (run fs ops (initial_context m)) = Some (i, m, b)"
    and i: "0 \<le> i" "i \<le> m" by auto
  from invoke_iteration_state [OF s, of fs x]
  obtain j b' where t: "iteration_state (context_after (invoke fs x (run fs ops (initial_context m))))
                     = Some (j, m, b')"
    and j: "j = i \<or> (j = i + 1 \<and> i < m \<and> is_revision x) \<or> (j = 1 \<and> x = ReadData)"
    by blast
  have "0 \<le> j" "j \<le> m" "x \<noteq> ReadData \<or> i \<le> 1 \<longrightarrow> i \<le> j"
    using i j assms by auto
  with s i t show ?thesis by blast
qed

theorem C2_iteration_count_bounded_and_monotone_witness:
  "(1::int) \<le> 3 \<and>
   iteration_state (run [''data/transcripts.md'' \<mapsto> ''t'', ''data/objectives.md'' \<mapsto> ''o'']
                        [ReadData, SubmitAnalysisDraft ''T'' ''C'', SubmitFeedback [] ''w'' [] True]
                        (initial_context 3)) = Some (1, 3, True) \<and>
   iteration_state (context_after (invoke [''data/transcripts.md'' \<mapsto> ''t'', ''data/objectives.md'' \<mapsto> ''o'']
                      (SubmitRevisedAnalysis ''T'' ''C'' None)
                      (run [''data/transcripts.md'' \<mapsto> ''t'', ''data/objectives.md'' \<mapsto> ''o'']
                        [ReadData, SubmitAnalysisDraft ''T'' ''C'', SubmitFeedback [] ''w'' [] True]
                        (initial_context 3)))) = Some (2, 3, True)"
proof -
  let ?fs = "[''data/transcripts.md'' \<mapsto> ''t'', ''data/objectives.md'' \<mapsto> ''o'']"
  let ?ops = "[ReadData, SubmitAnalysisDraft ''T'' ''C'', SubmitFeedback [] ''w'' [] True]"
  have h: "(1::int) \<le> 3" by simp
  have a: "iteration_state (run ?fs ?ops (initial_context 3)) = Some (1, 3, True)"
    by (simp add: iteration_state_def initial_context_def shared_context_def read_data_def
        submit_analysis_draft_def submit_feedback_def Let_def)
  from C2_iteration_count_bounded_and_monotone [OF h, of ?fs ?ops "SubmitRevisedAnalysis ''T'' ''C'' None"] a
  obtain j b' where t: "iteration_state (context_after (invoke ?fs (SubmitRevisedAnalysis ''T'' ''C'' None)
                      (run ?fs ?ops (initial_context 3)))) = Some (j, 3, b')" and "1 \<le> j"
    by auto
  have "iteration_state (context_after (invoke ?fs (SubmitRevisedAnalysis ''T'' ''C'' None)
                      (run ?fs ?ops (initial_context 3)))) = Some (2, 3, True)"
    by (simp add: iteration_state_def initial_context_def shared_context_def read_data_def
        submit_analysis_draft_def submit_feedback_def submit_revised_analysis_def
        another_iteration_def increment_iteration_def Let_def)
  with h a show ?thesis by simp
qed

text \<open>
  The claim as stated fails for calls in any order: \<^verbatim>\<open>read_data\<close> assigns 1 to
  \<^verbatim>\<open>current_iteration\<close>, so a second ingestion after the loop has advanced to
  iteration 2 takes the count back to 1.
\<close>

theorem C2_repeated_read_data_resets_counterexample:
  "run [''data/transcripts.md'' \<mapsto> ''t'', ''data/objectives.md'' \<mapsto> ''o'']
       [ReadData, SubmitAnalysisDraft ''T'' ''C'', SubmitFeedback [] ''w'' [] True,
        SubmitRevisedAnalysis ''T'' ''C'' None]
       shared_context ''current_iteration'' = Some (VInt 2) \<and>
   context_after
     (invoke [''data/transcripts.md'' \<mapsto> ''t'', ''data/objectives.md'' \<mapsto> ''o''] ReadData
        (run [''data/transcripts.md'' \<mapsto> ''t'', ''data/objectives.md'' \<mapsto> ''o'']
             [ReadData, SubmitAnalysisDraft ''T'' ''C'', SubmitFeedback [] ''w'' [] True,
              SubmitRevisedAnalysis ''T'' ''C'' None]
             shared_context))
     ''current_iteration'' = Some (VInt 1)"
  by (simp add: shared_context_def read_data_def submit_analysis_draft_def submit_feedback_def
      submit_revised_analysis_def another_iteration_def increment_iteration_def Let_def)

subsection \<open>The bound on the loop edge\<close>










end
